theory Spec2Isabelle
  imports Complex_Main "HOL-Library.Sublist" "HOL-Library.Multiset"
begin

section \<open>Arrangement check: a model of \<open>arrangement_check.py\<close>\<close>

text \<open>
  The module checks and repairs the arrangement of spheres and polyhedral solids in a
  scene. The scene host (\<open>maya.cmds\<close>) is outside the repository: it is modelled as a
  record that answers every attribute and face-count query, and \<open>setAttr\<close> is an update
  of that record. Host failures (a deleted object, a missing attribute) are therefore not
  part of the model.

  Coordinates are Python floats in the source. They are modelled as exact real numbers:
  \<open>mag ** 0.5\<close> is \<open>sqrt\<close>, and \<open>==\<close> on numbers is equality of reals. Rounding,
  underflow and overflow are not modelled. The model and the program agree where every
  intermediate value is exactly representable, and the scenes evaluated below are chosen
  so: small integer coordinates, with an integer distance wherever a distance is computed.
  Nothing is concluded here about what the program's comparisons of rounded values return.

  A position is a three-element list in the source and a triple here. An object is its
  name (a DAG path), a string; Python's \<open>"pSphere" in obj\<close> is \<open>sublist ''pSphere'' obj\<close>.
\<close>

subsection \<open>Errors and the scene\<close>

datatype py_error = IndexError | ZeroDivisionError | TypeError

type_synonym point = "real \<times> real \<times> real"

record scene =
  translateX :: "string \<Rightarrow> real"
  translateY :: "string \<Rightarrow> real"
  translateZ :: "string \<Rightarrow> real"
  face_count :: "string \<Rightarrow> int"

subsection \<open>Vector helpers\<close>

fun distance_bw_points :: "point \<Rightarrow> point \<Rightarrow> real" where
  "distance_bw_points (a0, a1, a2) (b0, b1, b2) =
     sqrt ((a0 - b0)\<^sup>2 + (a1 - b1)\<^sup>2 + (a2 - b2)\<^sup>2)"

fun magnitude :: "point \<Rightarrow> real" where
  "magnitude (v0, v1, v2) = sqrt (v0\<^sup>2 + v1\<^sup>2 + v2\<^sup>2)"

definition get_position :: "scene \<Rightarrow> string \<Rightarrow> point" where
  "get_position sc obj = (translateX sc obj, translateY sc obj, translateZ sc obj)"

fun vector_bw_obj :: "point \<Rightarrow> point \<Rightarrow> point" where
  "vector_bw_obj (a0, a1, a2) (b0, b1, b2) = (b0 - a0, b1 - a1, b2 - a2)"

definition distance_from_center :: "scene \<Rightarrow> string \<Rightarrow> real" where
  "distance_from_center sc obj = distance_bw_points (0, 0, 0) (get_position sc obj)"

fun cross_product :: "point \<Rightarrow> point \<Rightarrow> point" where
  "cross_product (a0, a1, a2) (b0, b1, b2) =
     (a1 * b2 - a2 * b1, a2 * b0 - a0 * b2, a0 * b1 - a1 * b0)"

definition get_faces :: "scene \<Rightarrow> string \<Rightarrow> int" where
  "get_faces sc obj = face_count sc obj"

subsection \<open>The four predicates\<close>

text \<open>
  \<open>check_if_in_line\<close>: the positions, the vectors between consecutive positions, and for
  each consecutive pair of vectors whether the magnitude of their cross product is zero.
  \<open>range(len(xs) - 1)\<close> is empty for an empty list, as \<open>[0..<length xs - 1]\<close> is.
  The test \<open>magnitude == 0\<close> is on a float in the source and on a real here.
\<close>

definition in_line_positions :: "point list \<Rightarrow> bool" where
  "in_line_positions objs_position =
     (let vector_bw =
            map (\<lambda>i. vector_bw_obj (objs_position ! i) (objs_position ! (i + 1)))
              [0..<length objs_position - 1];
          cross_product_result =
            map (\<lambda>i. magnitude (cross_product (vector_bw ! i) (vector_bw ! (i + 1))) = 0)
              [0..<length vector_bw - 1]
      in \<not> (False \<in> set cross_product_result))"

definition check_if_in_line :: "scene \<Rightarrow> string list \<Rightarrow> bool" where
  "check_if_in_line sc obj_list = in_line_positions (map (get_position sc) obj_list)"

text \<open>
  \<open>if_equally_spaced\<close> reads \<open>distance_from_origin[1]\<close> before its loop: with fewer than
  two objects that is an IndexError. The gaps are compared with \<open>==\<close> on floats in the
  source and as reals here.
\<close>

definition if_equally_spaced :: "scene \<Rightarrow> string list \<Rightarrow> py_error + bool" where
  "if_equally_spaced sc obj_list =
     (let distance_from_origin = sort (map (\<lambda>obj. magnitude (get_position sc obj)) obj_list)
      in if length distance_from_origin < 2 then Inl IndexError
         else
           let difference = distance_from_origin ! 1 - distance_from_origin ! 0;
               check =
                 map (\<lambda>i. distance_from_origin ! (i + 1) - distance_from_origin ! i = difference)
                   [0..<length distance_from_origin - 1]
           in Inr (\<not> (False \<in> set check)))"

text \<open>
  \<open>if_right_order\<close>: two nested loops over the same list, leaving with False at the first
  solid that is closer than the sphere whose last character it carries. \<open>obj[-1]\<close> is
  \<open>last obj\<close>; it is only read for a name that contains \<open>pSphere\<close>, which is not empty.
\<close>

fun solid_closer :: "scene \<Rightarrow> string \<Rightarrow> string \<Rightarrow> string list \<Rightarrow> bool" where
  "solid_closer sc obj solid_name [] = False"
| "solid_closer sc obj solid_name (obj2 # rest) =
     (if sublist solid_name obj2
         \<and> distance_from_center sc obj2 < distance_from_center sc obj
      then True
      else solid_closer sc obj solid_name rest)"

fun right_order_loop :: "scene \<Rightarrow> string list \<Rightarrow> string list \<Rightarrow> bool" where
  "right_order_loop sc obj_list [] = True"
| "right_order_loop sc obj_list (obj # rest) =
     (if sublist ''pSphere'' obj \<and> solid_closer sc obj (''pSolid'' @ [last obj]) obj_list
      then False
      else right_order_loop sc obj_list rest)"

definition if_right_order :: "scene \<Rightarrow> string list \<Rightarrow> bool" where
  "if_right_order sc obj_list = right_order_loop sc obj_list obj_list"

text \<open>\<open>if_right_order_poly\<close>: the solids in list order, compared pair by pair.\<close>

fun faces_loop :: "scene \<Rightarrow> string list \<Rightarrow> bool" where
  "faces_loop sc (p # q # rest) =
     (if get_faces sc p > get_faces sc q then False else faces_loop sc (q # rest))"
| "faces_loop sc _ = True"

definition if_right_order_poly :: "scene \<Rightarrow> string list \<Rightarrow> bool" where
  "if_right_order_poly sc obj_list = faces_loop sc (filter (sublist ''pSolid'') obj_list)"

subsection \<open>The correction\<close>

text \<open>
  \<open>distance_for_furthestsphere\<close> sorts the names containing \<open>pSphere\<close> by distance and reads
  the last one: \<open>sphere[-1]\<close> raises IndexError when there is none. Python's sort is stable,
  as \<open>sort_key\<close> is.
\<close>

definition distance_for_furthestsphere :: "scene \<Rightarrow> string list \<Rightarrow> py_error + real" where
  "distance_for_furthestsphere sc obj_list =
     (let sphere = sort_key (distance_from_center sc) (filter (sublist ''pSphere'') obj_list)
      in if sphere = [] then Inl IndexError
         else Inr (distance_from_center sc (last sphere)))"

definition no_of_spheres :: "string list \<Rightarrow> nat" where
  "no_of_spheres obj_list = length (filter (sublist ''pSphere'') obj_list)"

text \<open>The new order tests for \<open>Sphere\<close>, not \<open>pSphere\<close>; everything else counts as a solid.\<close>

definition new_order_for_fixed_arrangement :: "scene \<Rightarrow> string list \<Rightarrow> string list" where
  "new_order_for_fixed_arrangement sc obj_list =
     (let spheres = filter (sublist ''Sphere'') obj_list;
          solids = filter (\<lambda>obj. \<not> sublist ''Sphere'' obj) obj_list
      in sort_key (distance_from_center sc) spheres @ sort_key (get_faces sc) solids)"

text \<open>The three \<open>setAttr\<close> calls of one loop iteration, and the loop over \<open>enumerate(order)\<close>.\<close>

definition set_position :: "string \<Rightarrow> real \<Rightarrow> scene \<Rightarrow> scene" where
  "set_position obj x sc =
     sc\<lparr>translateX := (translateX sc)(obj := x),
        translateY := (translateY sc)(obj := 0),
        translateZ := (translateZ sc)(obj := 0)\<rparr>"

fun place_objects :: "real \<Rightarrow> nat \<Rightarrow> string list \<Rightarrow> scene \<Rightarrow> scene" where
  "place_objects spacing i [] sc = sc"
| "place_objects spacing i (obj # rest) sc =
     place_objects spacing (i + 1) rest (set_position obj (spacing * real (i + 1)) sc)"

definition fix_arrangement :: "string list \<Rightarrow> scene \<Rightarrow> py_error + scene" where
  "fix_arrangement obj_list sc =
     (case distance_for_furthestsphere sc obj_list of
        Inl e \<Rightarrow> Inl e
      | Inr distance \<Rightarrow>
          if no_of_spheres obj_list = 0 then Inl ZeroDivisionError
          else
            let new_spacing_bw_objs = distance / real (no_of_spheres obj_list);
                order = new_order_for_fixed_arrangement sc obj_list
            in Inr (place_objects new_spacing_bw_objs 0 order sc))"

subsection \<open>The entry point\<close>

text \<open>
  \<open>arrangement_check_and_fix\<close> removes from the host's list the names containing \<open>Shape\<close>
  with \<open>list.remove\<close> inside a \<open>for\<close> loop over that same list. The loop's iterator is an
  index into the list as it currently is, and \<open>remove\<close> deletes the first equal element.
\<close>

function remove_shapes :: "nat \<Rightarrow> string list \<Rightarrow> string list" where
  "remove_shapes i obj_list =
     (if i < length obj_list
      then (if sublist ''Shape'' (obj_list ! i)
            then remove_shapes (i + 1) (remove1 (obj_list ! i) obj_list)
            else remove_shapes (i + 1) obj_list)
      else obj_list)"
  by pat_completeness auto
termination
  by (relation "measure (\<lambda>(i, obj_list). length obj_list - i)") (auto simp: length_remove1)

declare remove_shapes.simps [simp del]

text \<open>
  What one run of the entry point leaves behind: the scene or the exception that ended it,
  the lines printed, and (a ghost field, for stating which calls were made) the argument
  of every call of \<open>fix_arrangement\<close>, in order.
\<close>

record run =
  outcome :: "py_error + scene"
  fix_calls :: "string list list"
  printed :: "string list"

definition fix_and_report :: "string list \<Rightarrow> string \<Rightarrow> run \<Rightarrow> run" where
  "fix_and_report obj_list line r =
     (case outcome r of
        Inl e \<Rightarrow> r
      | Inr sc \<Rightarrow>
          (case fix_arrangement obj_list sc of
             Inl e \<Rightarrow> r\<lparr>outcome := Inl e, fix_calls := fix_calls r @ [obj_list]\<rparr>
           | Inr sc' \<Rightarrow>
               r\<lparr>outcome := Inr sc', fix_calls := fix_calls r @ [obj_list],
                 printed := printed r @ [line]\<rparr>))"

text \<open>
  \<open>cmds.listRelatives\<close> returns None when it finds nothing, and the \<open>for\<close> loop then
  raises TypeError. The four predicates are evaluated before any correction.
\<close>

definition arrangement_check_and_fix :: "string list option \<Rightarrow> scene \<Rightarrow> run" where
  "arrangement_check_and_fix relatives sc =
     (case relatives of
        None \<Rightarrow> \<lparr>outcome = Inl TypeError, fix_calls = [], printed = []\<rparr>
      | Some raw \<Rightarrow>
          let obj_list = sort_key (distance_from_center sc) (remove_shapes 0 raw)
          in (case if_equally_spaced sc obj_list of
                Inl e \<Rightarrow> \<lparr>outcome = Inl e, fix_calls = [], printed = []\<rparr>
              | Inr are_object_equally_spaced \<Rightarrow>
                  let are_object_in_line = check_if_in_line sc obj_list;
                      are_in_right_order2 = if_right_order_poly sc obj_list;
                      are_in_right_order = if_right_order sc obj_list;
                      r0 = \<lparr>outcome = Inr sc, fix_calls = [], printed = []\<rparr>;
                      r1 = (if \<not> are_object_equally_spaced
                            then fix_and_report obj_list
                                   ''Objects were not equally spaced and are fixed'' r0
                            else r0);
                      r2 = (if \<not> are_object_in_line
                            then fix_and_report obj_list
                                   ''Objects were not in one line and are fixed'' r1
                            else r1)
                  in if \<not> (are_in_right_order \<or> are_in_right_order2)
                     then fix_and_report obj_list
                            ''Objects were not in right order and are fixed'' r2
                     else r2))"

subsection \<open>Scenes for the examples\<close>

text \<open>A scene given by a table of name, position and face count; anything else sits at
  the origin with no faces.\<close>

definition scene_of :: "(string \<times> point \<times> int) list \<Rightarrow> scene" where
  "scene_of table =
     \<lparr>translateX = (\<lambda>obj. case map_of table obj of None \<Rightarrow> 0 | Some ((x, y, z), f) \<Rightarrow> x),
      translateY = (\<lambda>obj. case map_of table obj of None \<Rightarrow> 0 | Some ((x, y, z), f) \<Rightarrow> y),
      translateZ = (\<lambda>obj. case map_of table obj of None \<Rightarrow> 0 | Some ((x, y, z), f) \<Rightarrow> z),
      face_count = (\<lambda>obj. case map_of table obj of None \<Rightarrow> 0 | Some ((x, y, z), f) \<Rightarrow> f)\<rparr>"

definition lone_solid_scene :: scene where
  "lone_solid_scene = scene_of [(''pSolid1'', (3, 0, 0), 6)]"

definition lone_sphere_scene :: scene where
  "lone_sphere_scene = scene_of [(''pSphere1'', (2, 0, 0), 400)]"

text \<open>A scene with a name that contains \<open>Sphere\<close> but not \<open>pSphere\<close>.\<close>

definition two_marker_list :: "string list" where
  "two_marker_list = [''pSphere1'', ''Sphere2'']"

definition two_marker_scene :: scene where
  "two_marker_scene = scene_of [(''pSphere1'', (4, 0, 0), 400), (''Sphere2'', (1, 0, 0), 400)]"

text \<open>A sphere and a solid that both carry the index 12, the solid nearer the origin.\<close>

definition twelve_scene :: scene where
  "twelve_scene = scene_of [(''pSphere12'', (5, 0, 0), 400), (''pSolid12'', (1, 0, 0), 12)]"

text \<open>What the host may list: three objects and a shape node, none of them in place.\<close>

definition skewed_raw :: "string list" where
  "skewed_raw = [''pSolid1'', ''pSolidShape1'', ''pSphere1'', ''pSolid2'']"

definition skewed_scene :: scene where
  "skewed_scene = scene_of
     [(''pSolid1'', (1, 0, 0), 8), (''pSphere1'', (4, 0, 0), 400), (''pSolid2'', (0, 2, 0), 4)]"

text \<open>Four objects on the x-axis, two of them at the same point; and the same scene with
  the last object moved off the axis.\<close>

definition coincident_list :: "string list" where
  "coincident_list = [''pSphere1'', ''pSolid1'', ''pSphere2'', ''pSolid2'']"

definition coincident_scene :: scene where
  "coincident_scene = scene_of
     [(''pSphere1'', (0, 0, 0), 400), (''pSolid1'', (1, 0, 0), 4),
      (''pSphere2'', (1, 0, 0), 400), (''pSolid2'', (2, 0, 0), 6)]"

definition coincident_moved_scene :: scene where
  "coincident_moved_scene = scene_of
     [(''pSphere1'', (0, 0, 0), 400), (''pSolid1'', (1, 0, 0), 4),
      (''pSphere2'', (1, 0, 0), 400), (''pSolid2'', (2, 1, 0), 6)]"

subsection \<open>Notions used in the statements\<close>

text \<open>\<open>fix_arrangement\<close> called \<open>k\<close> times in a row with the same list, each call on the
  scene the one before left; an exception ends the row.\<close>

fun fix_times :: "nat \<Rightarrow> string list \<Rightarrow> scene \<Rightarrow> py_error + scene" where
  "fix_times 0 obj_list sc = Inr sc"
| "fix_times (Suc k) obj_list sc =
     (case fix_times k obj_list sc of
        Inl e \<Rightarrow> Inl e
      | Inr sc' \<Rightarrow> fix_arrangement obj_list sc')"

text \<open>The number of \<open>if\<close> statements of the entry point whose condition holds.\<close>

definition failed_categories :: "bool \<Rightarrow> bool \<Rightarrow> bool \<Rightarrow> bool \<Rightarrow> nat" where
  "failed_categories spaced in_line right_order right_order2 =
     (if \<not> spaced then 1 else 0) + (if \<not> in_line then 1 else 0)
     + (if \<not> right_order \<and> \<not> right_order2 then 1 else 0)"

text \<open>A run after \<open>k\<close> of the entry point's corrections were due.\<close>

definition run_after :: "nat \<Rightarrow> string list \<Rightarrow> scene \<Rightarrow> run \<Rightarrow> bool" where
  "run_after k obj_list sc r \<longleftrightarrow>
     outcome r = fix_times k obj_list sc
     \<and> length (fix_calls r) \<le> k
     \<and> (0 < k \<longrightarrow> fix_calls r \<noteq> [])
     \<and> set (fix_calls r) \<subseteq> {obj_list}
     \<and> ((\<exists>sc'. outcome r = Inr sc') \<longrightarrow>
           fix_calls r = replicate k obj_list \<and> length (printed r) = k)"

text \<open>Where an object is after a run that may have raised.\<close>

definition position_in :: "py_error + scene \<Rightarrow> string \<Rightarrow> py_error + point" where
  "position_in result obj =
     (case result of Inl e \<Rightarrow> Inl e | Inr sc \<Rightarrow> Inr (get_position sc obj))"

text \<open>The spacing check on the distance-sorted list, in the scene a run left.\<close>

definition recheck_spacing :: "py_error + scene \<Rightarrow> string list \<Rightarrow> py_error + bool" where
  "recheck_spacing result obj_list =
     (case result of
        Inl e \<Rightarrow> Inl e
      | Inr sc \<Rightarrow> if_equally_spaced sc (sort_key (distance_from_center sc) obj_list))"

section \<open>Properties\<close>

subsection \<open>Short lists\<close>

lemma in_line_short: "length ps < 3 \<Longrightarrow> in_line_positions ps"
  by (auto simp: in_line_positions_def)

text \<open>On fewer than two objects the three predicates that only loop return True.\<close>

lemma short_list_predicates:
  "length obj_list < 2 \<Longrightarrow>
     check_if_in_line sc obj_list \<and> if_right_order sc obj_list \<and> if_right_order_poly sc obj_list"
proof -
  assume "length obj_list < 2"
  then consider "obj_list = []" | obj where "obj_list = [obj]"
    by (cases obj_list) (auto simp: length_Suc_conv)
  then show ?thesis
    by cases
      (simp_all add: check_if_in_line_def in_line_short if_right_order_def
        if_right_order_poly_def)
qed

text \<open>
  Claim C3. With fewer than two objects \<open>if_equally_spaced\<close> does not return True: it
  raises IndexError at \<open>distance_from_origin[1]\<close>, before the loop that would have
  found nothing to compare.
\<close>

theorem if_equally_spaced_short_list_raises:
  "length obj_list < 2 \<Longrightarrow> if_equally_spaced sc obj_list = Inl IndexError"
  by (simp add: if_equally_spaced_def)

theorem if_equally_spaced_short_list_raises_witness:
  "length [''pSphere1''] < 2
   \<and> if_equally_spaced lone_sphere_scene [''pSphere1''] = Inl IndexError"
  using if_equally_spaced_short_list_raises [of "[''pSphere1'']" lone_sphere_scene] by simp

subsection \<open>No spheres\<close>

text \<open>
  Claim C4, as amended. For every object list with no name containing \<open>pSphere\<close>,
  \<open>fix_arrangement\<close> fails, with the IndexError that \<open>distance_for_furthestsphere\<close> raises
  at \<open>sphere[-1]\<close>; the division is not reached.
\<close>

theorem fix_arrangement_no_spheres:
  "no_of_spheres obj_list = 0 \<Longrightarrow> fix_arrangement obj_list sc = Inl IndexError"
  by (simp add: fix_arrangement_def distance_for_furthestsphere_def no_of_spheres_def)

theorem fix_arrangement_no_spheres_witness:
  "no_of_spheres [''pSolid1''] = 0
   \<and> fix_arrangement [''pSolid1''] lone_solid_scene = Inl IndexError"
  using fix_arrangement_no_spheres [of "[''pSolid1'']" lone_solid_scene]
  by (simp add: no_of_spheres_def sublist_code(3))

text \<open>
  Claim C4 as stated fails: with no sphere in the list the error is not a division by
  zero.
\<close>

theorem fix_arrangement_no_spheres_counterexample:
  "no_of_spheres [''pSolid1''] = 0
   \<and> fix_arrangement [''pSolid1''] lone_solid_scene \<noteq> Inl ZeroDivisionError"
  by (simp add: fix_arrangement_def distance_for_furthestsphere_def no_of_spheres_def
      sublist_code(3))

subsection \<open>Face-count order\<close>

lemma faces_loop_sorted: "faces_loop sc ps = sorted (map (get_faces sc) ps)"
  by (induction sc ps rule: faces_loop.induct) auto

text \<open>
  Claim C7. \<open>if_right_order_poly\<close> returns False exactly when two adjacent solids, in the
  order of the given list, have the earlier one with strictly more faces; equivalently it
  returns True exactly when the solids' face counts are non-decreasing in that order.
\<close>

theorem if_right_order_poly_iff:
  "if_right_order_poly sc obj_list =
     (\<not> (\<exists>i. i + 1 < length (filter (sublist ''pSolid'') obj_list)
            \<and> get_faces sc (filter (sublist ''pSolid'') obj_list ! i)
                > get_faces sc (filter (sublist ''pSolid'') obj_list ! (i + 1))))
   \<and> if_right_order_poly sc obj_list =
       sorted (map (get_faces sc) (filter (sublist ''pSolid'') obj_list))"
proof -
  let ?ps = "filter (sublist ''pSolid'') obj_list"
  have "sorted (map (get_faces sc) ?ps) =
        (\<forall>i. Suc i < length ?ps \<longrightarrow> get_faces sc (?ps ! i) \<le> get_faces sc (?ps ! Suc i))"
    by (simp add: sorted_iff_nth_Suc)
  also have "\<dots> =
        (\<not> (\<exists>i. i + 1 < length ?ps \<and> get_faces sc (?ps ! i) > get_faces sc (?ps ! (i + 1))))"
    by (simp add: linorder_not_less [symmetric])
  finally show ?thesis
    by (simp add: if_right_order_poly_def faces_loop_sorted)
qed

subsection \<open>What the correction writes\<close>

lemma get_position_set_position:
  "get_position (set_position obj x sc) obj' = (if obj' = obj then (x, 0, 0) else get_position sc obj')"
  by (simp add: get_position_def set_position_def)

lemma face_count_set_position: "face_count (set_position obj x sc) = face_count sc"
  by (simp add: set_position_def)

lemma face_count_place_objects: "face_count (place_objects s i order sc) = face_count sc"
  by (induction order arbitrary: i sc) (simp_all add: face_count_set_position)

lemma place_objects_other:
  "obj \<notin> set order \<Longrightarrow> get_position (place_objects s i order sc) obj = get_position sc obj"
  by (induction order arbitrary: i sc) (auto simp: get_position_set_position)

lemma place_objects_nth:
  "distinct order \<Longrightarrow> k < length order \<Longrightarrow>
     get_position (place_objects s i order sc) (order ! k) = (s * real (i + k + 1), 0, 0)"
proof (induction order arbitrary: i sc k)
  case Nil
  then show ?case by simp
next
  case (Cons obj rest)
  show ?case
  proof (cases k)
    case 0
    with Cons.prems show ?thesis
      by (simp add: place_objects_other get_position_set_position)
  next
    case (Suc j)
    with Cons.prems have "get_position (place_objects s (i + 1) rest (set_position obj (s * real (i + 1)) sc)) (rest ! j)
        = (s * real (i + 1 + j + 1), 0, 0)"
      by (intro Cons.IH) simp_all
    with Suc show ?thesis by (simp add: add.commute add.left_commute)
  qed
qed

lemma set_new_order: "set (new_order_for_fixed_arrangement sc obj_list) = set obj_list"
  by (auto simp: new_order_for_fixed_arrangement_def)

lemma length_new_order: "length (new_order_for_fixed_arrangement sc obj_list) = length obj_list"
  by (simp add: new_order_for_fixed_arrangement_def sum_length_filter_compl)

lemma distinct_new_order:
  "distinct obj_list \<Longrightarrow> distinct (new_order_for_fixed_arrangement sc obj_list)"
  by (auto simp: new_order_for_fixed_arrangement_def)

lemma sorted_last_Max: "sorted xs \<Longrightarrow> xs \<noteq> [] \<Longrightarrow> last xs = Max (set (xs :: real list))"
proof (induction xs)
  case Nil
  then show ?case by simp
next
  case (Cons x xs)
  show ?case
  proof (cases "xs = []")
    case True
    then show ?thesis by simp
  next
    case False
    with Cons have IH: "last xs = Max (set xs)" by simp
    from False obtain y where y: "y \<in> set xs" by (cases xs) auto
    with Cons.prems have "x \<le> y" by simp
    also have "y \<le> Max (set xs)" using y by simp
    finally have "max x (Max (set xs)) = Max (set xs)" by (rule max_absorb2)
    with IH False show ?thesis by simp
  qed
qed

lemma key_last_sort_key:
  "xs \<noteq> [] \<Longrightarrow> f (last (sort_key f xs)) = Max ((f :: 'a \<Rightarrow> real) ` set xs)"
proof -
  assume ne: "xs \<noteq> []"
  then have ne': "sort_key f xs \<noteq> []" by (metis length_0_conv length_sort)
  have "f (last (sort_key f xs)) = last (map f (sort_key f xs))"
    using ne' by (simp add: last_map)
  also have "\<dots> = Max (set (map f (sort_key f xs)))"
    using ne' by (intro sorted_last_Max) simp_all
  finally show ?thesis by simp
qed

lemma distance_for_furthestsphere_Max:
  "filter (sublist ''pSphere'') obj_list \<noteq> [] \<Longrightarrow>
   distance_for_furthestsphere sc obj_list =
     Inr (Max (distance_from_center sc ` set (filter (sublist ''pSphere'') obj_list)))"
proof -
  assume ne: "filter (sublist ''pSphere'') obj_list \<noteq> []"
  then have "sort_key (distance_from_center sc) (filter (sublist ''pSphere'') obj_list) \<noteq> []"
    by (metis length_0_conv length_sort)
  then show ?thesis
    using key_last_sort_key [OF ne, of "distance_from_center sc"]
    by (simp add: distance_for_furthestsphere_def Let_def)
qed

lemma fix_arrangement_places:
  assumes "distinct obj_list" and "\<exists>obj \<in> set obj_list. sublist ''pSphere'' obj"
  shows "\<exists>sc'. fix_arrangement obj_list sc = Inr sc'
           \<and> sc' = place_objects (Max (distance_from_center sc ` set (filter (sublist ''pSphere'') obj_list))
                      / real (length (filter (sublist ''pSphere'') obj_list))) 0
                    (new_order_for_fixed_arrangement sc obj_list) sc"
proof -
  from assms(2) have ne: "filter (sublist ''pSphere'') obj_list \<noteq> []"
    by (auto simp: filter_empty_conv)
  then show ?thesis
    by (simp add: fix_arrangement_def distance_for_furthestsphere_Max no_of_spheres_def)
qed

lemma fix_arrangement_result:
  assumes "distinct obj_list" and "\<exists>obj \<in> set obj_list. sublist ''pSphere'' obj"
  shows "\<exists>sc'. fix_arrangement obj_list sc = Inr sc'
     \<and> (\<forall>i < length obj_list.
           get_position sc' (new_order_for_fixed_arrangement sc obj_list ! i)
           = (Max (distance_from_center sc ` set (filter (sublist ''pSphere'') obj_list))
                / real (length (filter (sublist ''pSphere'') obj_list)) * real (i + 1), 0, 0))
     \<and> face_count sc' = face_count sc
     \<and> (\<forall>obj. obj \<notin> set obj_list \<longrightarrow> get_position sc' obj = get_position sc obj)"
proof -
  define order where "order = new_order_for_fixed_arrangement sc obj_list"
  define s where "s = Max (distance_from_center sc ` set (filter (sublist ''pSphere'') obj_list))
                      / real (length (filter (sublist ''pSphere'') obj_list))"
  from fix_arrangement_places [OF assms, of sc]
  have fx: "fix_arrangement obj_list sc = Inr (place_objects s 0 order sc)"
    by (simp add: order_def s_def)
  have "distinct order"
    unfolding order_def by (rule distinct_new_order [OF assms(1)])
  then have "get_position (place_objects s 0 order sc) (order ! i) = (s * real (i + 1), 0, 0)"
    if "i < length order" for i
    using place_objects_nth [of order i s 0 sc] that by simp
  then have "\<forall>i < length obj_list.
      get_position (place_objects s 0 order sc) (order ! i) = (s * real (i + 1), 0, 0)"
    by (simp add: order_def length_new_order)
  moreover have "\<forall>obj. obj \<notin> set obj_list \<longrightarrow>
      get_position (place_objects s 0 order sc) obj = get_position sc obj"
    by (simp add: place_objects_other order_def set_new_order)
  ultimately show ?thesis
    using fx unfolding order_def s_def by (simp add: face_count_place_objects)
qed

lemma two_marker_distance:
  "distance_from_center two_marker_scene ''pSphere1'' = 4"
  "distance_from_center two_marker_scene ''Sphere2'' = 1"
  by (simp_all add: two_marker_scene_def scene_of_def distance_from_center_def get_position_def)

lemma two_marker_filters:
  "filter (sublist ''Sphere'') two_marker_list = [''pSphere1'', ''Sphere2'']"
  "filter (\<lambda>obj. \<not> sublist ''Sphere'' obj) two_marker_list = []"
  "filter (sublist ''pSphere'') two_marker_list = [''pSphere1'']"
  by (simp_all add: two_marker_list_def sublist_code(3))

lemma two_marker_order:
  "new_order_for_fixed_arrangement two_marker_scene two_marker_list = [''Sphere2'', ''pSphere1'']"
  by (simp add: new_order_for_fixed_arrangement_def two_marker_filters two_marker_distance)

lemma two_marker_fixed:
  "\<exists>sc'. fix_arrangement two_marker_list two_marker_scene = Inr sc'
     \<and> get_position sc' ''Sphere2'' = (4, 0, 0) \<and> get_position sc' ''pSphere1'' = (8, 0, 0)
     \<and> face_count sc' = face_count two_marker_scene
     \<and> (\<forall>obj. obj \<notin> set two_marker_list \<longrightarrow> get_position sc' obj = get_position two_marker_scene obj)"
proof -
  have d: "distinct two_marker_list" by (simp add: two_marker_list_def)
  have ex: "\<exists>obj \<in> set two_marker_list. sublist ''pSphere'' obj"
    by (simp add: two_marker_list_def sublist_code(3))
  from fix_arrangement_result [OF d ex, of two_marker_scene] obtain sc' where
    fx: "fix_arrangement two_marker_list two_marker_scene = Inr sc'" and
    pos: "\<forall>i < 2. get_position sc' ([''Sphere2'', ''pSphere1''] ! i) = (4 * real (i + 1), 0, 0)" and
    rest: "face_count sc' = face_count two_marker_scene"
       "\<forall>obj. obj \<notin> set two_marker_list \<longrightarrow> get_position sc' obj = get_position two_marker_scene obj"
    unfolding two_marker_order two_marker_filters
    by (auto simp: two_marker_distance two_marker_list_def)
  from pos have "get_position sc' ''Sphere2'' = (4, 0, 0)" by (auto dest: spec [of _ 0])
  moreover from pos have "get_position sc' ''pSphere1'' = (8, 0, 0)" by (auto dest: spec [of _ 1])
  ultimately show ?thesis using fx rest by blast
qed

text \<open>
  Claim C1. \<open>new_order_for_fixed_arrangement\<close> takes for a sphere every name that contains
  \<open>Sphere\<close>, while \<open>no_of_spheres\<close> and \<open>distance_for_furthestsphere\<close> take only the names
  that contain \<open>pSphere\<close>. In the list below \<open>Sphere2\<close> (distance 1) is ordered before
  \<open>pSphere1\<close> (distance 4) as a sphere, but the spacing is \<open>4 / 1\<close>, computed as if
  \<open>pSphere1\<close> were the only sphere: \<open>Sphere2\<close> goes to 4 and \<open>pSphere1\<close> to 8. With both
  objects spheres the spacing \<open>D / n\<close> is \<open>4 / 2\<close> and the positions are 2 and 4; with only
  \<open>pSphere1\<close> a sphere it comes first and the positions are 4 for it and 8 for \<open>Sphere2\<close>.
\<close>

theorem fix_arrangement_marker_mismatch:
  "filter (sublist ''Sphere'') two_marker_list = [''pSphere1'', ''Sphere2'']
   \<and> no_of_spheres two_marker_list = 1
   \<and> distance_for_furthestsphere two_marker_scene two_marker_list = Inr 4
   \<and> new_order_for_fixed_arrangement two_marker_scene two_marker_list = [''Sphere2'', ''pSphere1'']
   \<and> position_in (fix_arrangement two_marker_list two_marker_scene) ''Sphere2'' = Inr (4, 0, 0)
   \<and> position_in (fix_arrangement two_marker_list two_marker_scene) ''pSphere1'' = Inr (8, 0, 0)"
proof -
  from two_marker_fixed obtain sc' where
    "fix_arrangement two_marker_list two_marker_scene = Inr sc'"
    "get_position sc' ''Sphere2'' = (4, 0, 0)" "get_position sc' ''pSphere1'' = (8, 0, 0)"
    by blast
  then have "position_in (fix_arrangement two_marker_list two_marker_scene) ''Sphere2''
      = Inr (4, 0, 0)"
    and "position_in (fix_arrangement two_marker_list two_marker_scene) ''pSphere1''
      = Inr (8, 0, 0)"
    by (simp_all add: position_in_def)
  moreover have "no_of_spheres two_marker_list = 1"
    by (simp add: no_of_spheres_def two_marker_filters)
  moreover have "distance_for_furthestsphere two_marker_scene two_marker_list = Inr 4"
    by (simp add: distance_for_furthestsphere_def two_marker_filters two_marker_distance)
  ultimately show ?thesis
    by (simp add: two_marker_filters two_marker_order)
qed


subsection \<open>Sphere before solid\<close>

lemma solid_closer_iff:
  "solid_closer sc obj solid_name objs \<longleftrightarrow>
     (\<exists>obj2 \<in> set objs. sublist solid_name obj2
        \<and> distance_from_center sc obj2 < distance_from_center sc obj)"
  by (induction objs) auto

lemma right_order_loop_iff:
  "right_order_loop sc obj_list objs \<longleftrightarrow>
     \<not> (\<exists>obj \<in> set objs. sublist ''pSphere'' obj
           \<and> solid_closer sc obj (''pSolid'' @ [last obj]) obj_list)"
  by (induction objs) auto

lemma if_right_order_iff:
  "if_right_order sc obj_list \<longleftrightarrow>
     \<not> (\<exists>obj \<in> set obj_list. sublist ''pSphere'' obj
           \<and> (\<exists>obj2 \<in> set obj_list. sublist (''pSolid'' @ [last obj]) obj2
                 \<and> distance_from_center sc obj2 < distance_from_center sc obj))"
  by (simp add: if_right_order_def right_order_loop_iff solid_closer_iff)

lemma twelve_distance:
  "distance_from_center twelve_scene ''pSphere12'' = 5"
  "distance_from_center twelve_scene ''pSolid12'' = 1"
  by (simp_all add: twelve_scene_def scene_of_def distance_from_center_def get_position_def)

text \<open>
  Claim C6. \<open>if_right_order\<close> pairs a sphere with every name that contains \<open>pSolid\<close>
  followed by the sphere's last character, not with the solid of the same index. Here
  \<open>pSolid12\<close> is strictly closer to the origin than \<open>pSphere12\<close>, and the function returns
  True.
\<close>

theorem if_right_order_two_digit_index:
  "if_right_order twelve_scene [''pSphere12'', ''pSolid12'']
   \<and> distance_from_center twelve_scene ''pSolid12''
       < distance_from_center twelve_scene ''pSphere12''"
  by (simp add: if_right_order_def twelve_distance sublist_code(3))

subsection \<open>The collinearity test, unfolded\<close>

lemma magnitude_zero_iff: "magnitude v = 0 \<longleftrightarrow> v = (0, 0, 0)"
proof (cases v)
  case (fields x y z)
  have "x\<^sup>2 + y\<^sup>2 + z\<^sup>2 = 0 \<longleftrightarrow> x = 0 \<and> y = 0 \<and> z = 0"
  proof
    assume e: "x\<^sup>2 + y\<^sup>2 + z\<^sup>2 = 0"
    have "0 \<le> x\<^sup>2" "0 \<le> y\<^sup>2" "0 \<le> z\<^sup>2" by simp_all
    with e have "x\<^sup>2 = 0" "y\<^sup>2 = 0" "z\<^sup>2 = 0" by linarith+
    then show "x = 0 \<and> y = 0 \<and> z = 0" by simp
  qed simp
  with fields show ?thesis by simp
qed

lemma in_line_positions_iff:
  "in_line_positions ps \<longleftrightarrow>
     (\<forall>i. i + 2 < length ps \<longrightarrow>
        cross_product (vector_bw_obj (ps ! i) (ps ! (i + 1)))
          (vector_bw_obj (ps ! (i + 1)) (ps ! (i + 2))) = (0, 0, 0))"
proof -
  have "in_line_positions ps \<longleftrightarrow>
     (\<forall>i < length ps - 1 - 1.
        magnitude (cross_product (vector_bw_obj (ps ! i) (ps ! (i + 1)))
          (vector_bw_obj (ps ! (i + 1)) (ps ! (i + 1 + 1)))) = 0)"
    unfolding in_line_positions_def Let_def by (auto simp: image_iff)
  also have "\<dots> \<longleftrightarrow> (\<forall>i. i + 2 < length ps \<longrightarrow>
        cross_product (vector_bw_obj (ps ! i) (ps ! (i + 1)))
          (vector_bw_obj (ps ! (i + 1)) (ps ! (i + 2))) = (0, 0, 0))"
  proof -
    have "i < length ps - 1 - 1 \<longleftrightarrow> i + 2 < length ps" for i by linarith
    moreover have "i + 1 + 1 = i + 2" for i :: nat by simp
    ultimately show ?thesis by (simp only: magnitude_zero_iff)
  qed
  finally show ?thesis .
qed

lemma in_line_positions3:
  "in_line_positions [p, q, r] \<longleftrightarrow>
     cross_product (vector_bw_obj p q) (vector_bw_obj q r) = (0, 0, 0)"
proof -
  have "i + 2 < 3 \<longleftrightarrow> i = 0" for i :: nat by linarith
  then show ?thesis
    by (simp add: in_line_positions_iff del: One_nat_def)
qed

subsection \<open>The entry point's corrections\<close>

lemma run_after_start:
  "run_after 0 obj_list sc \<lparr>outcome = Inr sc, fix_calls = [], printed = []\<rparr>"
  by (simp add: run_after_def)

lemma run_after_step:
  assumes "run_after k obj_list sc r"
  shows "run_after (Suc k) obj_list sc (fix_and_report obj_list line r)"
proof (cases "outcome r")
  case (Inl e)
  then have same: "fix_and_report obj_list line r = r"
    by (simp add: fix_and_report_def)
  from assms Inl have ft: "fix_times k obj_list sc = Inl e"
    by (simp add: run_after_def)
  then have "0 < k" by (cases k) simp_all
  with assms have "fix_calls r \<noteq> []" by (simp add: run_after_def)
  moreover from assms have "length (fix_calls r) \<le> Suc k" "set (fix_calls r) \<subseteq> {obj_list}"
    by (simp_all add: run_after_def)
  ultimately show ?thesis
    unfolding same using Inl ft by (simp add: run_after_def)
next
  case (Inr sc1)
  with assms have calls: "fix_calls r = replicate k obj_list" and pr: "length (printed r) = k"
    and out: "fix_times k obj_list sc = Inr sc1"
    by (simp_all add: run_after_def)
  show ?thesis
  proof (cases "fix_arrangement obj_list sc1")
    case (Inl e)
    then have "fix_and_report obj_list line r
        = r\<lparr>outcome := Inl e, fix_calls := fix_calls r @ [obj_list]\<rparr>"
      using \<open>outcome r = Inr sc1\<close> by (simp add: fix_and_report_def)
    with Inl calls out show ?thesis
      by (simp add: run_after_def set_replicate_conv_if)
  next
    case (Inr sc2)
    then have "fix_and_report obj_list line r
        = r\<lparr>outcome := Inr sc2, fix_calls := fix_calls r @ [obj_list],
             printed := printed r @ [line]\<rparr>"
      using \<open>outcome r = Inr sc1\<close> by (simp add: fix_and_report_def)
    with Inr calls pr out show ?thesis
      by (simp add: run_after_def replicate_append_same set_replicate_conv_if)
  qed
qed

lemma run_after_calls:
  assumes "run_after k obj_list sc r"
  shows "outcome r = fix_times k obj_list sc
     \<and> (fix_calls r \<noteq> [] \<longleftrightarrow> 0 < k)
     \<and> length (fix_calls r) \<le> k
     \<and> set (fix_calls r) \<subseteq> {obj_list}
     \<and> ((\<exists>sc'. outcome r = Inr sc') \<longrightarrow>
           fix_calls r = replicate k obj_list \<and> length (printed r) = k)"
  using assms by (cases k) (auto simp: run_after_def)

lemma arrangement_check_and_fix_run_after:
  assumes "obj_list = sort_key (distance_from_center sc) (remove_shapes 0 raw)"
    and "if_equally_spaced sc obj_list = Inr spaced"
  shows "run_after
           (failed_categories spaced (check_if_in_line sc obj_list)
              (if_right_order sc obj_list) (if_right_order_poly sc obj_list))
           obj_list sc (arrangement_check_and_fix (Some raw) sc)"
proof -
  let ?r0 = "\<lparr>outcome = Inr sc, fix_calls = [], printed = []\<rparr>"
  let ?r1 = "if \<not> spaced
             then fix_and_report obj_list ''Objects were not equally spaced and are fixed'' ?r0
             else ?r0"
  let ?r2 = "if \<not> check_if_in_line sc obj_list
             then fix_and_report obj_list ''Objects were not in one line and are fixed'' ?r1
             else ?r1"
  let ?r3 = "if \<not> (if_right_order sc obj_list \<or> if_right_order_poly sc obj_list)
             then fix_and_report obj_list ''Objects were not in right order and are fixed'' ?r2
             else ?r2"
  let ?k1 = "if \<not> spaced then 1 else 0 :: nat"
  let ?k2 = "?k1 + (if \<not> check_if_in_line sc obj_list then 1 else 0)"
  let ?k3 = "?k2 + (if \<not> if_right_order sc obj_list \<and> \<not> if_right_order_poly sc obj_list
                    then 1 else 0)"
  have 1: "run_after ?k1 obj_list sc ?r1"
    using run_after_step [OF run_after_start, of obj_list sc] by (simp add: run_after_start)
  have 2: "run_after ?k2 obj_list sc ?r2"
    using run_after_step [OF 1] 1 by (cases "check_if_in_line sc obj_list") simp_all
  have 3: "run_after ?k3 obj_list sc ?r3"
    using run_after_step [OF 2] 2
    by (cases "if_right_order sc obj_list \<or> if_right_order_poly sc obj_list") auto
  have "arrangement_check_and_fix (Some raw) sc = ?r3"
    using assms by (simp add: arrangement_check_and_fix_def Let_def)
  with 3 show ?thesis by (simp add: failed_categories_def)
qed

lemma fix_arrangement_succeeds:
  assumes "\<exists>obj \<in> set obj_list. sublist ''pSphere'' obj"
  shows "\<exists>sc'. fix_arrangement obj_list sc = Inr sc'"
proof -
  from assms have ne: "filter (sublist ''pSphere'') obj_list \<noteq> []"
    by (auto simp: filter_empty_conv)
  then have "sort_key (distance_from_center sc) (filter (sublist ''pSphere'') obj_list) \<noteq> []"
    by (metis length_0_conv length_sort)
  with ne show ?thesis
    by (simp add: fix_arrangement_def distance_for_furthestsphere_def no_of_spheres_def Let_def)
qed

lemma fix_times_succeeds:
  assumes "\<exists>obj \<in> set obj_list. sublist ''pSphere'' obj"
  shows "\<exists>sc'. fix_times k obj_list sc = Inr sc'"
proof (induction k)
  case 0
  show ?case by simp
next
  case (Suc k)
  then obtain sc1 where "fix_times k obj_list sc = Inr sc1" by blast
  with fix_arrangement_succeeds [OF assms, of sc1] show ?case by simp
qed

lemma skewed_position:
  "get_position skewed_scene ''pSolid1'' = (1, 0, 0)"
  "get_position skewed_scene ''pSolid2'' = (0, 2, 0)"
  "get_position skewed_scene ''pSphere1'' = (4, 0, 0)"
  by (simp_all add: skewed_scene_def scene_of_def get_position_def)

lemma skewed_distance:
  "distance_from_center skewed_scene ''pSolid1'' = 1"
  "distance_from_center skewed_scene ''pSolid2'' = 2"
  "distance_from_center skewed_scene ''pSphere1'' = 4"
  by (simp_all add: distance_from_center_def skewed_position)

lemma skewed_faces:
  "get_faces skewed_scene ''pSolid1'' = 8"
  "get_faces skewed_scene ''pSolid2'' = 4"
  by (simp_all add: skewed_scene_def scene_of_def get_faces_def)

lemma skewed_filtered: "remove_shapes 0 skewed_raw = [''pSolid1'', ''pSphere1'', ''pSolid2'']"
  by (simp add: skewed_raw_def remove_shapes.simps sublist_code(3))

lemma skewed_sorted:
  "sort_key (distance_from_center skewed_scene) (remove_shapes 0 skewed_raw)
   = [''pSolid1'', ''pSolid2'', ''pSphere1'']"
  by (simp add: skewed_filtered skewed_distance)

lemma skewed_spacing:
  "if_equally_spaced skewed_scene [''pSolid1'', ''pSolid2'', ''pSphere1''] = Inr False"
  by (simp add: if_equally_spaced_def skewed_position upt_rec)

lemma skewed_line: "\<not> check_if_in_line skewed_scene [''pSolid1'', ''pSolid2'', ''pSphere1'']"
  by (simp add: check_if_in_line_def in_line_positions3 skewed_position)

lemma skewed_order: "\<not> if_right_order skewed_scene [''pSolid1'', ''pSolid2'', ''pSphere1'']"
  by (simp add: if_right_order_def skewed_distance sublist_code(3))

lemma skewed_poly: "\<not> if_right_order_poly skewed_scene [''pSolid1'', ''pSolid2'', ''pSphere1'']"
  by (simp add: if_right_order_poly_def skewed_faces sublist_code(3))

text \<open>
  Claim C2. When the four predicates have been evaluated on the filtered list sorted by
  distance, \<open>arrangement_check_and_fix\<close> calls \<open>fix_arrangement\<close> exactly when equal
  spacing fails, or collinearity fails, or both order predicates fail; it calls it at most
  three times, once per failed category, every time with that same list; and the scene it
  leaves is the result of that many corrections in a row.
\<close>

theorem arrangement_check_and_fix_calls:
  "obj_list = sort_key (distance_from_center sc) (remove_shapes 0 raw) \<Longrightarrow>
   if_equally_spaced sc obj_list = Inr spaced \<Longrightarrow>
   r = arrangement_check_and_fix (Some raw) sc \<Longrightarrow>
   k = failed_categories spaced (check_if_in_line sc obj_list)
         (if_right_order sc obj_list) (if_right_order_poly sc obj_list) \<Longrightarrow>
     (fix_calls r \<noteq> [] \<longleftrightarrow>
        \<not> spaced \<or> \<not> check_if_in_line sc obj_list
        \<or> (\<not> if_right_order sc obj_list \<and> \<not> if_right_order_poly sc obj_list))
     \<and> length (fix_calls r) \<le> k \<and> k \<le> 3
     \<and> (\<forall>c \<in> set (fix_calls r). c = obj_list)
     \<and> outcome r = fix_times k obj_list sc
     \<and> ((\<exists>sc'. outcome r = Inr sc') \<longrightarrow>
           fix_calls r = replicate k obj_list \<and> length (printed r) = k)"
proof -
  assume a: "obj_list = sort_key (distance_from_center sc) (remove_shapes 0 raw)"
    "if_equally_spaced sc obj_list = Inr spaced"
    and r: "r = arrangement_check_and_fix (Some raw) sc"
    and k: "k = failed_categories spaced (check_if_in_line sc obj_list)
         (if_right_order sc obj_list) (if_right_order_poly sc obj_list)"
  have "run_after k obj_list sc r"
    unfolding r k by (rule arrangement_check_and_fix_run_after [OF a])
  from run_after_calls [OF this]
  have "outcome r = fix_times k obj_list sc"
    and "fix_calls r \<noteq> [] \<longleftrightarrow> 0 < k"
    and "length (fix_calls r) \<le> k"
    and "set (fix_calls r) \<subseteq> {obj_list}"
    and "(\<exists>sc'. outcome r = Inr sc') \<longrightarrow>
           fix_calls r = replicate k obj_list \<and> length (printed r) = k"
    by blast+
  moreover have "0 < k \<longleftrightarrow> \<not> spaced \<or> \<not> check_if_in_line sc obj_list
        \<or> (\<not> if_right_order sc obj_list \<and> \<not> if_right_order_poly sc obj_list)"
    by (simp add: k failed_categories_def)
  moreover have "(\<forall>c \<in> set (fix_calls r). c = obj_list) \<longleftrightarrow> set (fix_calls r) \<subseteq> {obj_list}"
    by blast
  moreover have "k \<le> 3"
    by (simp add: k failed_categories_def)
  ultimately show ?thesis by blast
qed

theorem arrangement_check_and_fix_calls_witness:
  "[''pSolid1'', ''pSolid2'', ''pSphere1'']
     = sort_key (distance_from_center skewed_scene) (remove_shapes 0 skewed_raw)
   \<and> if_equally_spaced skewed_scene [''pSolid1'', ''pSolid2'', ''pSphere1''] = Inr False
   \<and> fix_calls (arrangement_check_and_fix (Some skewed_raw) skewed_scene)
       = [[''pSolid1'', ''pSolid2'', ''pSphere1''], [''pSolid1'', ''pSolid2'', ''pSphere1''],
          [''pSolid1'', ''pSolid2'', ''pSphere1'']]
   \<and> length (printed (arrangement_check_and_fix (Some skewed_raw) skewed_scene)) = 3"
proof -
  let ?objs = "[''pSolid1'', ''pSolid2'', ''pSphere1'']"
  let ?r = "arrangement_check_and_fix (Some skewed_raw) skewed_scene"
  have h1: "?objs = sort_key (distance_from_center skewed_scene) (remove_shapes 0 skewed_raw)"
    by (simp only: skewed_sorted)
  have k: "failed_categories False (check_if_in_line skewed_scene ?objs)
             (if_right_order skewed_scene ?objs) (if_right_order_poly skewed_scene ?objs) = 3"
    by (simp add: failed_categories_def skewed_line skewed_order skewed_poly)
  have "\<exists>obj \<in> set ?objs. sublist ''pSphere'' obj"
    by (simp add: sublist_code(3))
  then have ok: "\<exists>sc'. fix_times 3 ?objs skewed_scene = Inr sc'"
    by (rule fix_times_succeeds)
  from arrangement_check_and_fix_calls [OF h1 skewed_spacing refl k [symmetric]]
  have "outcome ?r = fix_times 3 ?objs skewed_scene"
    and "(\<exists>sc'. outcome ?r = Inr sc') \<longrightarrow>
           fix_calls ?r = replicate 3 ?objs \<and> length (printed ?r) = 3"
    by blast+
  with ok have "fix_calls ?r = replicate 3 ?objs \<and> length (printed ?r) = 3"
    by simp
  then have "fix_calls ?r = [?objs, ?objs, ?objs] \<and> length (printed ?r) = 3"
    by (simp add: numeral_3_eq_3)
  with h1 skewed_spacing show ?thesis by blast
qed

subsection \<open>Collinearity\<close>

lemma in_line_positions4:
  "in_line_positions [p, q, r, s] \<longleftrightarrow>
     cross_product (vector_bw_obj p q) (vector_bw_obj q r) = (0, 0, 0)
     \<and> cross_product (vector_bw_obj q r) (vector_bw_obj r s) = (0, 0, 0)"
  by (simp add: in_line_positions_iff All_less_Suc conj_commute)

lemma coincident_position:
  "map (get_position coincident_scene) coincident_list
     = [(0, 0, 0), (1, 0, 0), (1, 0, 0), (2, 0, 0)]"
  "map (get_position coincident_moved_scene) coincident_list
     = [(0, 0, 0), (1, 0, 0), (1, 0, 0), (2, 1, 0)]"
  by (simp_all add: coincident_list_def coincident_scene_def coincident_moved_scene_def
      scene_of_def get_position_def)

text \<open>
  Claim C8. Two objects at the same position give a zero displacement vector, and every
  cross product with it is zero. Four objects on the x-axis, the second and third at the
  same point, pass \<open>check_if_in_line\<close>; after the fourth is moved off the axis, to
  \<open>(2, 1, 0)\<close>, they still pass it.
\<close>

theorem check_if_in_line_misses_moved_object:
  "map (get_position coincident_scene) coincident_list
     = [(0, 0, 0), (1, 0, 0), (1, 0, 0), (2, 0, 0)]
   \<and> check_if_in_line coincident_scene coincident_list
   \<and> map (get_position coincident_moved_scene) coincident_list
     = [(0, 0, 0), (1, 0, 0), (1, 0, 0), (2, 1, 0)]
   \<and> check_if_in_line coincident_moved_scene coincident_list"
  by (simp add: check_if_in_line_def coincident_position in_line_positions4)

subsection \<open>Correcting a corrected scene\<close>

lemma distance_from_center_nonneg: "0 \<le> distance_from_center sc obj"
  by (simp add: distance_from_center_def get_position_def)

lemma distance_on_axis:
  "get_position sc obj = (x, 0, 0) \<Longrightarrow> distance_from_center sc obj = \<bar>x\<bar>"
  by (simp add: distance_from_center_def)

lemma set_position_same:
  "get_position sc obj = (x, 0, 0) \<Longrightarrow> set_position obj x sc = sc"
  by (cases sc) (simp add: get_position_def set_position_def fun_upd_idem)

lemma place_objects_same:
  "\<forall>k < length order. get_position sc (order ! k) = (s * real (i + k + 1), 0, 0) \<Longrightarrow>
   place_objects s i order sc = sc"
proof (induction order arbitrary: i)
  case Nil
  show ?case by simp
next
  case (Cons obj rest)
  from Cons.prems have "get_position sc ((obj # rest) ! 0) = (s * real (i + 0 + 1), 0, 0)"
    by blast
  then have first: "set_position obj (s * real (i + 1)) sc = sc"
    by (intro set_position_same) simp
  have "\<forall>k < length rest. get_position sc (rest ! k) = (s * real (i + 1 + k + 1), 0, 0)"
  proof (intro allI impI)
    fix k assume "k < length rest"
    then have "Suc k < length (obj # rest)" by simp
    with Cons.prems have "get_position sc ((obj # rest) ! Suc k) = (s * real (i + Suc k + 1), 0, 0)"
      by blast
    then show "get_position sc (rest ! k) = (s * real (i + 1 + k + 1), 0, 0)" by simp
  qed
  then have "place_objects s (i + 1) rest sc = sc" by (rule Cons.IH)
  with first show ?case by simp
qed

lemma sublist_pSphere_Sphere: "sublist ''pSphere'' obj \<Longrightarrow> sublist ''Sphere'' obj"
proof -
  assume "sublist ''pSphere'' obj"
  moreover have "sublist ''Sphere'' ''pSphere''" by (simp add: sublist_code(3))
  ultimately show ?thesis by (rule sublist_order.order_trans [rotated])
qed

lemma get_faces_cong: "face_count sc' = face_count sc \<Longrightarrow> get_faces sc' = get_faces sc"
  by (simp add: get_faces_def fun_eq_iff)

lemma sorted_zero_keys: "\<forall>x \<in> set xs. f x = (0 :: real) \<Longrightarrow> sorted (map f xs)"
  by (induction xs) auto

text \<open>
  Where the two tests for a sphere select the same objects, a second correction changes
  nothing (over the reals): the order, the furthest-sphere distance and every position stay.
\<close>

lemma refix:
  assumes d: "distinct obj_list"
    and ex: "\<exists>obj \<in> set obj_list. sublist ''pSphere'' obj"
    and names: "\<forall>obj \<in> set obj_list. sublist ''Sphere'' obj \<longrightarrow> sublist ''pSphere'' obj"
    and fx: "fix_arrangement obj_list sc = Inr sc1"
  shows "new_order_for_fixed_arrangement sc1 obj_list = new_order_for_fixed_arrangement sc obj_list"
    and "distance_for_furthestsphere sc1 obj_list = distance_for_furthestsphere sc obj_list"
    and "fix_arrangement obj_list sc1 = Inr sc1"
proof -
  define S where "S = filter (sublist ''Sphere'') obj_list"
  define T where "T = filter (\<lambda>obj. \<not> sublist ''Sphere'' obj) obj_list"
  define ss where "ss = sort_key (distance_from_center sc) S"
  define order where "order = new_order_for_fixed_arrangement sc obj_list"
  define m where "m = length S"
  define D where "D = Max (distance_from_center sc ` set S)"
  define s where "s = D / real m"
  have PS: "filter (sublist ''pSphere'') obj_list = S"
    unfolding S_def using names by (intro filter_cong) (auto dest: sublist_pSphere_Sphere)
  from ex have Sne: "S \<noteq> []"
    unfolding PS [symmetric] by (auto simp: filter_empty_conv)
  then have mpos: "0 < m" by (simp add: m_def)
  have order: "order = ss @ sort_key (get_faces sc) T"
    by (simp add: order_def new_order_for_fixed_arrangement_def S_def T_def ss_def)
  have len_ss: "length ss = m" by (simp add: ss_def m_def)
  have set_ss: "set ss = set S" by (simp add: ss_def)
  have dist_ss: "distinct ss" using d by (simp add: ss_def S_def)
  have mset_ss: "mset S = mset ss" by (simp add: ss_def)
  \<comment> \<open>the first correction\<close>
  from fix_arrangement_result [OF d ex, of sc] fx
  have pos: "\<forall>i < length obj_list. get_position sc1 (order ! i) = (s * real (i + 1), 0, 0)"
    and faces: "face_count sc1 = face_count sc"
    unfolding PS order_def s_def D_def m_def by auto
  have Dnn: "0 \<le> D"
  proof -
    from Sne obtain obj where "obj \<in> set S" by (cases S) auto
    then have "distance_from_center sc obj \<le> D" by (simp add: D_def)
    with distance_from_center_nonneg [of sc obj] show ?thesis by linarith
  qed
  then have snn: "0 \<le> s" by (simp add: s_def)
  have sm: "s * real m = D" using mpos by (simp add: s_def)
  have m_le: "m \<le> length obj_list" by (simp add: m_def S_def)
  have dist1: "distance_from_center sc1 (ss ! i) = s * real (i + 1)" if "i < m" for i
  proof -
    from that m_le have "i < length obj_list" by simp
    with pos have "get_position sc1 (order ! i) = (s * real (i + 1), 0, 0)" by blast
    moreover have "order ! i = ss ! i" using that by (simp add: order nth_append len_ss)
    ultimately have "distance_from_center sc1 (ss ! i) = \<bar>s * real (i + 1)\<bar>"
      by (simp add: distance_on_axis)
    with snn show ?thesis by simp
  qed
  \<comment> \<open>the furthest sphere keeps its distance\<close>
  have D1: "Max (distance_from_center sc1 ` set S) = D"
  proof (rule Max_eqI)
    show "finite (distance_from_center sc1 ` set S)" by simp
  next
    fix y assume "y \<in> distance_from_center sc1 ` set S"
    then obtain obj where "obj \<in> set ss" and y: "y = distance_from_center sc1 obj"
      unfolding set_ss by blast
    then obtain i where i: "i < m" and "obj = ss ! i"
      by (auto simp: in_set_conv_nth len_ss)
    with y have "y = s * real (i + 1)" by (simp add: dist1)
    also have "\<dots> \<le> s * real m"
      using i snn by (intro mult_left_mono) simp_all
    finally show "y \<le> D" by (simp add: sm)
  next
    have "m - 1 < m" using mpos by simp
    then have "distance_from_center sc1 (ss ! (m - 1)) = s * real (m - 1 + 1)" by (rule dist1)
    also have "\<dots> = D" using mpos sm by simp
    finally have "D = distance_from_center sc1 (ss ! (m - 1))" by simp
    moreover have "ss ! (m - 1) \<in> set S"
      using mpos unfolding set_ss [symmetric] by (intro nth_mem) (simp add: len_ss)
    ultimately show "D \<in> distance_from_center sc1 ` set S" by blast
  qed
  from Sne have f0: "distance_for_furthestsphere sc obj_list = Inr D"
    by (simp add: distance_for_furthestsphere_Max PS D_def)
  from Sne have f1: "distance_for_furthestsphere sc1 obj_list = Inr D"
    by (simp add: distance_for_furthestsphere_Max PS D1)
  from f0 f1 show "distance_for_furthestsphere sc1 obj_list = distance_for_furthestsphere sc obj_list"
    by simp
  \<comment> \<open>the spheres keep their order\<close>
  have sort1: "sort_key (distance_from_center sc1) S = ss"
  proof (cases "s = 0")
    case True
    then have D0: "D = 0" using sm by simp
    have "distance_from_center sc obj = 0" if "obj \<in> set S" for obj
    proof -
      from that have "distance_from_center sc obj \<le> D" by (simp add: D_def)
      with D0 distance_from_center_nonneg [of sc obj] show ?thesis by simp
    qed
    then have "sorted (map (distance_from_center sc) S)" by (intro sorted_zero_keys) blast
    then have ssS: "ss = S" unfolding ss_def by (rule sort_key_id_if_sorted)
    have "distance_from_center sc1 obj = 0" if "obj \<in> set S" for obj
    proof -
      from that obtain i where "i < m" "obj = ss ! i"
        unfolding set_ss [symmetric] by (auto simp: in_set_conv_nth len_ss)
      with True show ?thesis by (simp add: dist1)
    qed
    then have "sorted (map (distance_from_center sc1) S)" by (intro sorted_zero_keys) blast
    then have "sort_key (distance_from_center sc1) S = S" by (rule sort_key_id_if_sorted)
    with ssS show ?thesis by simp
  next
    case False
    with snn have spos: "0 < s" by simp
    have inj: "inj_on (distance_from_center sc1) (set S)"
    proof (rule inj_onI)
      fix a b assume "a \<in> set S" "b \<in> set S"
        and eq: "distance_from_center sc1 a = distance_from_center sc1 b"
      then obtain i j where i: "i < m" "a = ss ! i" and j: "j < m" "b = ss ! j"
        unfolding set_ss [symmetric] by (auto simp: in_set_conv_nth len_ss)
      with eq have "s * real (i + 1) = s * real (j + 1)" by (simp add: dist1)
      with spos have "i = j" by simp
      with i j show "a = b" by simp
    qed
    have "sorted (map (distance_from_center sc1) ss)"
    proof (subst sorted_iff_nth_mono, intro allI impI)
      fix i j assume "i \<le> j" and "j < length (map (distance_from_center sc1) ss)"
      then have j: "j < m" and i: "i < m" by (simp_all add: len_ss)
      have "s * real (i + 1) \<le> s * real (j + 1)"
        using \<open>i \<le> j\<close> snn by (intro mult_left_mono) simp_all
      with i j show "map (distance_from_center sc1) ss ! i \<le> map (distance_from_center sc1) ss ! j"
        by (simp add: len_ss dist1)
    qed
    with mset_ss inj show ?thesis by (rule sort_key_inj_key_eq)
  qed
  have order1: "new_order_for_fixed_arrangement sc1 obj_list = order"
    using sort1 get_faces_cong [OF faces]
    by (simp add: new_order_for_fixed_arrangement_def order S_def T_def)
  then show "new_order_for_fixed_arrangement sc1 obj_list = new_order_for_fixed_arrangement sc obj_list"
    by (simp add: order_def)
  \<comment> \<open>the second correction writes what is there already\<close>
  have len_order: "length order = length obj_list"
    by (simp add: order_def length_new_order)
  from pos have "\<forall>k < length order. get_position sc1 (order ! k) = (s * real (0 + k + 1), 0, 0)"
    by (simp add: len_order)
  then have "place_objects s 0 order sc1 = sc1" by (rule place_objects_same)
  moreover from fix_arrangement_places [OF d ex, of sc1]
  have "fix_arrangement obj_list sc1 = Inr (place_objects s 0 order sc1)"
    unfolding PS D1 order1 by (simp add: s_def m_def)
  ultimately show "fix_arrangement obj_list sc1 = Inr sc1" by simp
qed

lemma two_marker_fixed_twice:
  "\<exists>sc1 sc2. fix_arrangement two_marker_list two_marker_scene = Inr sc1
     \<and> get_position sc1 ''pSphere1'' = (8, 0, 0)
     \<and> fix_arrangement two_marker_list sc1 = Inr sc2
     \<and> get_position sc2 ''pSphere1'' = (16, 0, 0)"
proof -
  from two_marker_fixed obtain sc1 where
    fx: "fix_arrangement two_marker_list two_marker_scene = Inr sc1" and
    p2: "get_position sc1 ''Sphere2'' = (4, 0, 0)" and
    p1: "get_position sc1 ''pSphere1'' = (8, 0, 0)"
    by blast
  have d1: "distance_from_center sc1 ''Sphere2'' = 4" "distance_from_center sc1 ''pSphere1'' = 8"
    using p1 p2 by (simp_all add: distance_on_axis)
  have order1: "new_order_for_fixed_arrangement sc1 two_marker_list = [''Sphere2'', ''pSphere1'']"
    by (simp add: new_order_for_fixed_arrangement_def two_marker_filters d1)
  have d: "distinct two_marker_list" by (simp add: two_marker_list_def)
  have ex: "\<exists>obj \<in> set two_marker_list. sublist ''pSphere'' obj"
    by (simp add: two_marker_list_def sublist_code(3))
  from fix_arrangement_result [OF d ex, of sc1] obtain sc2 where
    fx2: "fix_arrangement two_marker_list sc1 = Inr sc2" and
    pos: "\<forall>i < 2. get_position sc2 ([''Sphere2'', ''pSphere1''] ! i) = (8 * real (i + 1), 0, 0)"
    unfolding order1 two_marker_filters
    by (auto simp: d1 two_marker_list_def)
  from pos have "get_position sc2 ''pSphere1'' = (16, 0, 0)" by (auto dest: spec [of _ 1])
  with fx p1 fx2 show ?thesis by blast
qed

text \<open>
  Claim C9. With \<open>Sphere2\<close> in the list the two tests differ, and \<open>fix_arrangement\<close> is not
  idempotent: \<open>pSphere1\<close>, at distance 4, is moved to 8 by the first run and to 16 by the
  second.
\<close>

theorem fix_arrangement_second_run_moves:
  "distinct two_marker_list \<and> no_of_spheres two_marker_list = 1
   \<and> position_in (fix_times 1 two_marker_list two_marker_scene) ''pSphere1'' = Inr (8, 0, 0)
   \<and> position_in (fix_times 2 two_marker_list two_marker_scene) ''pSphere1'' = Inr (16, 0, 0)"
proof -
  from two_marker_fixed_twice obtain sc1 sc2 where
    "fix_arrangement two_marker_list two_marker_scene = Inr sc1"
    "get_position sc1 ''pSphere1'' = (8, 0, 0)"
    "fix_arrangement two_marker_list sc1 = Inr sc2"
    "get_position sc2 ''pSphere1'' = (16, 0, 0)"
    by blast
  then have "position_in (fix_times 1 two_marker_list two_marker_scene) ''pSphere1'' = Inr (8, 0, 0)"
    and "position_in (fix_times 2 two_marker_list two_marker_scene) ''pSphere1'' = Inr (16, 0, 0)"
    by (simp_all add: position_in_def numeral_2_eq_2)
  moreover have "distinct two_marker_list" by (simp add: two_marker_list_def)
  moreover have "no_of_spheres two_marker_list = 1"
    by (simp add: no_of_spheres_def two_marker_filters)
  ultimately show ?thesis by blast
qed

subsection \<open>Checking a corrected scene\<close>

text \<open>
  Claim C10. A single sphere at distance 2 is corrected without error, and on the corrected
  scene \<open>if_equally_spaced\<close>, given the list sorted by distance, raises IndexError instead
  of returning True.
\<close>

theorem corrected_single_sphere_fails_recheck:
  "distance_for_furthestsphere lone_sphere_scene [''pSphere1''] = Inr 2
   \<and> recheck_spacing (fix_arrangement [''pSphere1''] lone_sphere_scene) [''pSphere1'']
       = Inl IndexError"
proof -
  have "distance_from_center lone_sphere_scene ''pSphere1'' = 2"
    by (simp add: lone_sphere_scene_def scene_of_def distance_from_center_def get_position_def)
  then have "distance_for_furthestsphere lone_sphere_scene [''pSphere1''] = Inr 2"
    by (simp add: distance_for_furthestsphere_def sublist_code(3))
  moreover have "\<exists>obj \<in> set [''pSphere1'']. sublist ''pSphere'' obj"
    by (simp add: sublist_code(3))
  from fix_arrangement_succeeds [OF this, of lone_sphere_scene] obtain sc' where
    "fix_arrangement [''pSphere1''] lone_sphere_scene = Inr sc'" by blast
  then have "recheck_spacing (fix_arrangement [''pSphere1''] lone_sphere_scene) [''pSphere1'']
       = Inl IndexError"
    by (simp add: recheck_spacing_def if_equally_spaced_def)
  ultimately show ?thesis by blast
qed

end
